theory Spec2Isabelle
  imports Main "HOL-Library.AList"
begin

section \<open>Email-thread conversation records: the upsert and fetch handlers of app.py\<close>

text \<open>
  The service keeps one table, \<open>Conversation\<close> (model.py), whose \<open>vcon\<close> column holds a
  JSON document. Two handlers of app.py touch it: \<open>generate_email_vcon\<close> (POST
  /vcon/email_thread), which creates the document of a thread or merges a request into
  the stored one, and \<open>get_vcon_by_thread_id\<close> (GET /vcon/{thread_id}).

  The embedding follows the code line by line. Python exceptions are values of type
  \<open>error\<close>; a handler takes the table and returns its answer together with the table
  after the request (an exception leaves the table as it was: the only commit is the
  last statement before the return).
\<close>

subsection \<open>Errors\<close>

datatype error =
    KeyError string
  | IndexError
  | HTTPException nat string

subsection \<open>Timestamps\<close>

text \<open>
  A \<open>datetime.datetime\<close> value: the wall-clock fields and \<open>tzinfo\<close>, which is \<open>None\<close> for
  a naive value and otherwise a fixed offset from UTC, here in seconds
  (\<open>datetime.timezone.utc\<close> is \<open>Some 0\<close>).
\<close>

record datetime =
  year :: nat
  month :: nat
  day :: nat
  hour :: nat
  minute :: nat
  second :: nat
  microsecond :: nat
  tzinfo :: "int option"

definition utc :: "int option" where
  "utc = Some 0"

text \<open>\<open>dt.replace(tzinfo=tz)\<close>: the same wall-clock fields under another \<open>tzinfo\<close>.\<close>

definition replace_tzinfo :: "datetime \<Rightarrow> int option \<Rightarrow> datetime" where
  "replace_tzinfo dt tz = dt\<lparr>tzinfo := tz\<rparr>"

definition digit :: "nat \<Rightarrow> char" where
  "digit n = ''0123456789'' ! n"

text \<open>The format \<open>%0wd\<close> of a natural number: decimal, padded with zeros to width \<open>w\<close>.\<close>

fun zpad :: "nat \<Rightarrow> nat \<Rightarrow> string" where
  "zpad w n =
     (if n < 10 then replicate (w - 1) (CHR ''0'') @ [digit n]
      else zpad (w - 1) (n div 10) @ [digit (n mod 10)])"

declare zpad.simps [simp del]

text \<open>
  The offset suffix of \<open>isoformat\<close>: sign, hours and minutes, and the seconds only when
  they are not zero.
\<close>

definition format_offset :: "int \<Rightarrow> string" where
  "format_offset off =
     (let a = nat \<bar>off\<bar>;
          hh = a div 3600;
          mm = (a mod 3600) div 60;
          ss = a mod 60
      in (if off < 0 then ''-'' else ''+'') @ zpad 2 hh @ '':'' @ zpad 2 mm
         @ (if ss \<noteq> 0 then '':'' @ zpad 2 ss else []))"

text \<open>
  \<open>dt.isoformat()\<close> with its default arguments: \<open>YYYY-MM-DDTHH:MM:SS\<close>, the microseconds
  when they are not zero, and the offset when the value is aware.
\<close>

definition isoformat :: "datetime \<Rightarrow> string" where
  "isoformat dt =
     zpad 4 (year dt) @ ''-'' @ zpad 2 (month dt) @ ''-'' @ zpad 2 (day dt) @ ''T''
     @ zpad 2 (hour dt) @ '':'' @ zpad 2 (minute dt) @ '':'' @ zpad 2 (second dt)
     @ (if microsecond dt \<noteq> 0 then ''.'' @ zpad 6 (microsecond dt) else [])
     @ (case tzinfo dt of None \<Rightarrow> [] | Some off \<Rightarrow> format_offset off)"

subsection \<open>Requests (app.py, lines 53-67)\<close>

text \<open>
  The request classes after validation: every field is required, and none carries a
  length or range constraint. \<open>parties\<close> holds the validated email strings.
\<close>

record DialogIn =
  originator_index :: int
  body_snippet :: string
  last_modified :: datetime

record EmailThreadRequest =
  thread_id :: string
  parties :: "string list"
  dialogs :: "DialogIn list"

subsection \<open>The stored document\<close>

text \<open>
  The JSON document of a thread. A field the code reads with \<open>.get\<close> or by subscript is
  an option, \<open>None\<close> for an absent key; the fields the code only writes (\<open>type\<close>,
  \<open>parties\<close>, \<open>originator\<close>, \<open>mimetype\<close> of a dialog entry) are plain values. \<open>metadata\<close>
  and \<open>meta\<close> are JSON objects when present. The top-level fields that the record library
  adds on its own (a uuid, a version, a creation date, empty lists) are never read or
  written by app.py and are left out.
\<close>

type_synonym json_object = "(string \<times> string) list"

record party_dict =
  p_email :: "string option"

record dialog_dict =
  d_type :: string
  d_start :: "string option"
  d_parties :: "nat list"
  d_originator :: int
  d_mimetype :: string
  d_body :: "string option"
  d_metadata :: "json_object option"
  d_meta :: "json_object option"

record vcon_dict =
  v_thread_id :: "string option"
  v_parties :: "party_dict list option"
  v_dialog :: "dialog_dict list option"

subsection \<open>The record library, as app.py uses it\<close>

text \<open>
  The classes \<open>Vcon\<close>, \<open>Party\<close> and \<open>Dialog\<close> come from the conversation-record
  library, which is not part of the repository; the spec (3, 4.1) fixes what app.py
  relies on.
\<close>

text \<open>
  Modelled from the spec: \<open>Vcon.build_new\<close>, absent from the sources. A new record has
  empty \<open>parties\<close> and \<open>dialog\<close> lists (and no key \<open>thread_id\<close>).
\<close>

definition Vcon_build_new :: vcon_dict where
  "Vcon_build_new = \<lparr>v_thread_id = None, v_parties = Some [], v_dialog = Some []\<rparr>"

text \<open>
  Modelled from the spec: the serialised \<open>Party(email=e)\<close>, absent from the sources. A
  party descriptor is \<open>{email}\<close>.
\<close>

definition Party :: "string \<Rightarrow> party_dict" where
  "Party e = \<lparr>p_email = Some e\<rparr>"

text \<open>
  Modelled from the spec: the serialised \<open>Dialog(type, start, parties, originator,
  mimetype, body)\<close>, absent from the sources. A dialog entry carries the six fields it
  was built with; the \<open>metadata\<close> and \<open>meta\<close> placeholders belong to the entries added
  during a merge only.
\<close>

definition Dialog ::
  "string \<Rightarrow> string \<Rightarrow> nat list \<Rightarrow> int \<Rightarrow> string \<Rightarrow> string \<Rightarrow> dialog_dict" where
  "Dialog ty st ps orig mt bd =
     \<lparr>d_type = ty, d_start = Some st, d_parties = ps, d_originator = orig,
      d_mimetype = mt, d_body = Some bd, d_metadata = None, d_meta = None\<rparr>"

subsection \<open>VconExtended (app.py, lines 39-50)\<close>

text \<open>
  An object of the class: the dictionary that the library keeps, and the attribute
  \<open>thread_id\<close> that \<open>build_new\<close> attaches to the object.
\<close>

record VconExtended =
  self_vcon_dict :: vcon_dict
  self_thread_id :: "string option"

definition build_new :: "string option \<Rightarrow> VconExtended" where
  "build_new tid = \<lparr>self_vcon_dict = Vcon_build_new, self_thread_id = tid\<rparr>"

text \<open>
  Modelled from the spec: the inherited methods \<open>add_party\<close> and \<open>add_dialog\<close>, absent
  from the sources. Each appends the serialised descriptor to its list in the
  dictionary.
\<close>

definition add_party :: "VconExtended \<Rightarrow> party_dict \<Rightarrow> error + VconExtended" where
  "add_party v p =
     (case v_parties (self_vcon_dict v) of
        None \<Rightarrow> Inl (KeyError ''parties'')
      | Some ps \<Rightarrow>
          Inr (v\<lparr>self_vcon_dict := (self_vcon_dict v)\<lparr>v_parties := Some (ps @ [p])\<rparr>\<rparr>))"

definition add_dialog :: "VconExtended \<Rightarrow> dialog_dict \<Rightarrow> error + VconExtended" where
  "add_dialog v d =
     (case v_dialog (self_vcon_dict v) of
        None \<Rightarrow> Inl (KeyError ''dialog'')
      | Some ds \<Rightarrow>
          Inr (v\<lparr>self_vcon_dict := (self_vcon_dict v)\<lparr>v_dialog := Some (ds @ [d])\<rparr>\<rparr>))"

text \<open>
  \<open>to_dict\<close> serialises the library's dictionary and adds the key \<open>thread_id\<close> when the
  attribute is set.
\<close>

definition to_dict :: "VconExtended \<Rightarrow> vcon_dict" where
  "to_dict v =
     (let base_dict = self_vcon_dict v
      in case self_thread_id v of
           None \<Rightarrow> base_dict
         | Some t \<Rightarrow> base_dict\<lparr>v_thread_id := Some t\<rparr>)"

subsection \<open>create_email_thread_vcon (app.py, lines 70-90)\<close>

fun add_parties :: "string list \<Rightarrow> VconExtended \<Rightarrow> error + VconExtended" where
  "add_parties [] v = Inr v"
| "add_parties (email # rest) v =
     (case add_party v (Party email) of
        Inl e \<Rightarrow> Inl e
      | Inr v' \<Rightarrow> add_parties rest v')"

text \<open>The \<open>start\<close> string of a dialog entry (lines 81-82 and 125-126).\<close>

definition start_of :: "DialogIn \<Rightarrow> string" where
  "start_of dlg = isoformat (replace_tzinfo (last_modified dlg) utc)"

fun add_dialogs ::
  "nat list \<Rightarrow> DialogIn list \<Rightarrow> VconExtended \<Rightarrow> error + VconExtended" where
  "add_dialogs party_indices [] v = Inr v"
| "add_dialogs party_indices (dlg # rest) v =
     (case add_dialog v
             (Dialog ''text'' (start_of dlg) party_indices (originator_index dlg)
                ''text/plain'' (body_snippet dlg)) of
        Inl e \<Rightarrow> Inl e
      | Inr v' \<Rightarrow> add_dialogs party_indices rest v')"

definition create_email_thread_vcon :: "EmailThreadRequest \<Rightarrow> error + VconExtended" where
  "create_email_thread_vcon req =
     (case add_parties (parties req) (build_new (Some (thread_id req))) of
        Inl e \<Rightarrow> Inl e
      | Inr v \<Rightarrow> add_dialogs [0 ..< length (parties req)] (dialogs req) v)"

subsection \<open>The table (model.py)\<close>

text \<open>
  A row of \<open>Conversation\<close>. The primary key is generated by the store and never read by
  the handlers; it is left out. The clock is a parameter of the handler. The table is the
  list of its rows in insertion order, and \<open>first_row\<close> is the query
  \<open>filter(threadId == t).first()\<close>: the position of the first row of the thread.
\<close>

record Conversation =
  vcon :: vcon_dict
  threadId :: string
  createdAt :: nat
  updatedAt :: nat

type_synonym db = "Conversation list"

fun first_row :: "string \<Rightarrow> db \<Rightarrow> nat option" where
  "first_row t [] = None"
| "first_row t (c # cs) =
     (if threadId c = t then Some 0 else map_option Suc (first_row t cs))"

subsection \<open>generate_email_vcon (app.py, lines 93-161)\<close>

text \<open>Lines 109-114: the emails of the request that no stored descriptor carries.\<close>

definition new_parties_of :: "party_dict list \<Rightarrow> string list \<Rightarrow> party_dict list" where
  "new_parties_of stored emails =
     (let existing_parties = map p_email stored
      in map (\<lambda>email. \<lparr>p_email = Some email\<rparr>)
           (filter (\<lambda>email. Some email \<notin> set existing_parties) emails))"

text \<open>
  Lines 120-123: the dictionary from \<open>(body, start)\<close> to the position of the entry, built
  once, before the loop; of two entries with the same key the later one stays.
\<close>

definition existing_bodies_of ::
  "dialog_dict list \<Rightarrow> ((string option \<times> string option) \<times> nat) list" where
  "existing_bodies_of ds =
     fold (\<lambda>(idx, d) m. AList.update (d_body d, d_start d) idx m) (enumerate 0 ds) []"

text \<open>Lines 136-145: the entry appended for a key that is not in the dictionary.\<close>

definition new_dialog :: "nat \<Rightarrow> DialogIn \<Rightarrow> dialog_dict" where
  "new_dialog n dlg =
     \<lparr>d_type = ''text'', d_start = Some (start_of dlg), d_parties = [0 ..< n],
      d_originator = originator_index dlg, d_mimetype = ''text/plain'',
      d_body = Some (body_snippet dlg), d_metadata = Some [], d_meta = Some []\<rparr>"

text \<open>
  Lines 124-146: the loop over the request's dialog entries. \<open>existing_dialogs\<close> is the
  list under the key \<open>dialog\<close> of the stored document (the same object, so the appended
  entries are in it too), or a fresh empty list when the key is absent.
\<close>

fun merge_dialogs ::
  "((string option \<times> string option) \<times> nat) list \<Rightarrow> DialogIn list \<Rightarrow> vcon_dict
     \<Rightarrow> error + vcon_dict" where
  "merge_dialogs existing_bodies [] v = Inr v"
| "merge_dialogs existing_bodies (dlg # rest) v =
     (let dlg_start = start_of dlg;
          dlg_tuple = (Some (body_snippet dlg), Some dlg_start)
      in case map_of existing_bodies dlg_tuple of
           Some idx \<Rightarrow>
             (case v_dialog v of
                None \<Rightarrow> Inl IndexError
              | Some ds \<Rightarrow>
                  if idx < length ds
                  then merge_dialogs existing_bodies rest
                         (v\<lparr>v_dialog := Some (ds[idx := (ds ! idx)
                              \<lparr>d_body := Some (body_snippet dlg),
                               d_start := Some dlg_start\<rparr>])\<rparr>)
                  else Inl IndexError)
         | None \<Rightarrow>
             (case v_parties v of
                None \<Rightarrow> Inl (KeyError ''parties'')
              | Some ps \<Rightarrow>
                  (case v_dialog v of
                     None \<Rightarrow> Inl (KeyError ''dialog'')
                   | Some ds \<Rightarrow>
                       merge_dialogs existing_bodies rest
                         (v\<lparr>v_dialog := Some (ds @ [new_dialog (length ps) dlg])\<rparr>))))"

text \<open>Lines 106-146: the merge of a request into the stored document.\<close>

definition merge_request :: "vcon_dict \<Rightarrow> EmailThreadRequest \<Rightarrow> error + vcon_dict" where
  "merge_request existing_vcon request =
     (let new_parties =
            new_parties_of (case v_parties existing_vcon of None \<Rightarrow> [] | Some ps \<Rightarrow> ps)
              (parties request)
      in case v_parties existing_vcon of
           None \<Rightarrow> Inl (KeyError ''parties'')
         | Some ps \<Rightarrow>
             (let v1 = existing_vcon\<lparr>v_parties := Some (ps @ new_parties)\<rparr>;
                  existing_dialogs = (case v_dialog v1 of None \<Rightarrow> [] | Some ds \<Rightarrow> ds)
              in merge_dialogs (existing_bodies_of existing_dialogs) (dialogs request) v1))"

definition generate_email_vcon ::
  "nat \<Rightarrow> EmailThreadRequest \<Rightarrow> db \<Rightarrow> (error + vcon_dict) \<times> db" where
  "generate_email_vcon now request db =
     (case create_email_thread_vcon request of
        Inl e \<Rightarrow> (Inl e, db)
      | Inr built \<Rightarrow>
          (let vcon_dict = to_dict built
           in case first_row (thread_id request) db of
                Some i \<Rightarrow>
                  (let conversation = db ! i
                   in case merge_request (vcon conversation) request of
                        Inl e \<Rightarrow> (Inl e, db)
                      | Inr merged \<Rightarrow>
                          (Inr merged,
                           db[i := conversation\<lparr>vcon := merged, updatedAt := now\<rparr>]))
              | None \<Rightarrow>
                  (Inr vcon_dict,
                   db @ [\<lparr>vcon = vcon_dict, threadId = thread_id request,
                          createdAt = now, updatedAt = now\<rparr>])))"

subsection \<open>get_vcon_by_thread_id (app.py, lines 164-171)\<close>

definition get_vcon_by_thread_id :: "string \<Rightarrow> db \<Rightarrow> (error + vcon_dict) \<times> db" where
  "get_vcon_by_thread_id t db =
     (case first_row t db of
        None \<Rightarrow> (Inl (HTTPException 404 ''Conversation not found''), db)
      | Some i \<Rightarrow> (Inr (vcon (db ! i)), db))"

text \<open>
  The body of the response that the framework sends for an \<open>HTTPException\<close>: the object
  with the single key \<open>detail\<close> (spec, 6).
\<close>

definition error_body :: "error \<Rightarrow> json_object" where
  "error_body e = (case e of HTTPException status detail \<Rightarrow> [(''detail'', detail)] | _ \<Rightarrow> [])"

subsection \<open>Notions used to state the properties\<close>

text \<open>The lookup key of a stored entry, as line 121 computes it.\<close>

definition dialog_key :: "dialog_dict \<Rightarrow> string option \<times> string option" where
  "dialog_key d = (d_body d, d_start d)"

text \<open>The lookup key of an incoming entry, as lines 125-127 compute it.\<close>

definition incoming_key :: "DialogIn \<Rightarrow> string option \<times> string option" where
  "incoming_key dlg = (Some (body_snippet dlg), Some (start_of dlg))"

text \<open>An incoming entry is unmatched when no entry of the list \<open>ds\<close> has its key.\<close>

definition unmatched :: "dialog_dict list \<Rightarrow> DialogIn \<Rightarrow> bool" where
  "unmatched ds dlg \<longleftrightarrow> incoming_key dlg \<notin> dialog_key ` set ds"

text \<open>The party list and the dialog list of a document, empty when the key is absent.\<close>

definition parties_of :: "vcon_dict \<Rightarrow> party_dict list" where
  "parties_of v = (case v_parties v of None \<Rightarrow> [] | Some ps \<Rightarrow> ps)"

definition dialog_of :: "vcon_dict \<Rightarrow> dialog_dict list" where
  "dialog_of v = (case v_dialog v of None \<Rightarrow> [] | Some ds \<Rightarrow> ds)"

text \<open>The \<open>email\<close> values of the party list of a document, in order.\<close>

definition emails_of :: "vcon_dict \<Rightarrow> string option list" where
  "emails_of v = (case v_parties v of None \<Rightarrow> [] | Some ps \<Rightarrow> map p_email ps)"

text \<open>No two party descriptors of a document, or of any row, carry the same email.\<close>

definition unique_emails :: "vcon_dict \<Rightarrow> bool" where
  "unique_emails v \<longleftrightarrow> distinct (emails_of v)"

definition unique_emails_db :: "db \<Rightarrow> bool" where
  "unique_emails_db db \<longleftrightarrow> list_all (\<lambda>c. unique_emails (vcon c)) db"

text \<open>The emails stored for a thread: those of the row that the handlers find.\<close>

definition stored_emails :: "string \<Rightarrow> db \<Rightarrow> string option list" where
  "stored_emails t db =
     (case first_row t db of None \<Rightarrow> [] | Some i \<Rightarrow> emails_of (vcon (db ! i)))"

text \<open>
  A sequence of upsert requests, each with the clock value of its handling, run one after
  the other on a table.
\<close>

fun run_requests :: "(nat \<times> EmailThreadRequest) list \<Rightarrow> db \<Rightarrow> db" where
  "run_requests [] db = db"
| "run_requests ((now, request) # rest) db =
     run_requests rest (snd (generate_email_vcon now request db))"

text \<open>
  The distinct values of a list in the order of their first occurrence: each value is
  added at the end unless it was met before.
\<close>

definition see :: "'a \<Rightarrow> 'a list \<Rightarrow> 'a list" where
  "see x acc = (if x \<in> set acc then acc else acc @ [x])"

definition first_seen :: "'a list \<Rightarrow> 'a list" where
  "first_seen xs = fold see xs []"

text \<open>
  The instant that an aware timestamp denotes, in microseconds of UTC, counted with the
  proleptic Gregorian ordinal of the date as \<open>datetime\<close> itself does when it subtracts
  two aware values; a naive timestamp denotes none.
\<close>

definition is_leap :: "nat \<Rightarrow> bool" where
  "is_leap y = (if y mod 100 = 0 then y mod 400 = 0 else y mod 4 = 0)"

definition days_before_year :: "nat \<Rightarrow> nat" where
  "days_before_year y = (let p = y - 1 in p * 365 + p div 4 - p div 100 + p div 400)"

definition days_before_month :: "nat \<Rightarrow> nat \<Rightarrow> nat" where
  "days_before_month y m =
     [0, 0, 31, 59, 90, 120, 151, 181, 212, 243, 273, 304, 334] ! m
     + (if 2 < m \<and> is_leap y then 1 else 0)"

definition ymd2ord :: "nat \<Rightarrow> nat \<Rightarrow> nat \<Rightarrow> nat" where
  "ymd2ord y m d = days_before_year y + days_before_month y m + d"

definition utc_instant :: "datetime \<Rightarrow> int option" where
  "utc_instant dt =
     (case tzinfo dt of
        None \<Rightarrow> None
      | Some off \<Rightarrow>
          Some ((int (ymd2ord (year dt) (month dt) (day dt)) * 86400
                 + int (hour dt * 3600 + minute dt * 60 + second dt) - off) * 1000000
                + int (microsecond dt)))"

text \<open>The fields of a dialog entry other than \<open>body\<close> and \<open>start\<close>.\<close>

definition other_fields ::
  "dialog_dict \<Rightarrow> string \<times> nat list \<times> int \<times> string \<times> json_object option \<times> json_object option" where
  "other_fields d = (d_type d, d_parties d, d_originator d, d_mimetype d, d_metadata d, d_meta d)"

subsection \<open>The scenario of the spec (8) and a stored thread\<close>

text \<open>
  The three requests of the concrete scenario; the timestamp \<open>2024-01-01T00:00:00\<close>
  is parsed to a naive value. \<open>stored1\<close> is the document of thread \<open>t1\<close> after the
  first request, and \<open>db1\<close> a table holding it.
\<close>

definition new_year :: datetime where
  "new_year = \<lparr>year = 2024, month = 1, day = 1, hour = 0, minute = 0, second = 0,
               microsecond = 0, tzinfo = None\<rparr>"

definition post1 :: EmailThreadRequest where
  "post1 = \<lparr>thread_id = ''t1'', parties = [''a@x.com'', ''b@x.com''],
            dialogs = [\<lparr>originator_index = 0, body_snippet = ''hi'', last_modified = new_year\<rparr>]\<rparr>"

definition post2 :: EmailThreadRequest where
  "post2 = \<lparr>thread_id = ''t1'', parties = [''b@x.com'', ''c@x.com''],
            dialogs = [\<lparr>originator_index = 0, body_snippet = ''hi'', last_modified = new_year\<rparr>]\<rparr>"


definition parties1 :: "party_dict list" where
  "parties1 = [\<lparr>p_email = Some ''a@x.com''\<rparr>, \<lparr>p_email = Some ''b@x.com''\<rparr>]"

definition dialog1 :: "dialog_dict list" where
  "dialog1 = [\<lparr>d_type = ''text'', d_start = Some ''2024-01-01T00:00:00+00:00'',
               d_parties = [0, 1], d_originator = 0, d_mimetype = ''text/plain'',
               d_body = Some ''hi'', d_metadata = None, d_meta = None\<rparr>]"

definition stored1 :: vcon_dict where
  "stored1 = \<lparr>v_thread_id = Some ''t1'', v_parties = Some parties1, v_dialog = Some dialog1\<rparr>"

definition parties2 :: "party_dict list" where
  "parties2 = [\<lparr>p_email = Some ''a@x.com''\<rparr>, \<lparr>p_email = Some ''b@x.com''\<rparr>,
               \<lparr>p_email = Some ''c@x.com''\<rparr>]"

definition stored2 :: vcon_dict where
  "stored2 = \<lparr>v_thread_id = Some ''t1'', v_parties = Some parties2, v_dialog = Some dialog1\<rparr>"

text \<open>A row of thread \<open>t1\<close>.\<close>

definition row1 :: "vcon_dict \<Rightarrow> nat \<Rightarrow> nat \<Rightarrow> Conversation" where
  "row1 v c u = \<lparr>vcon = v, threadId = ''t1'', createdAt = c, updatedAt = u\<rparr>"

definition db1 :: db where
  "db1 = [row1 stored1 1 1]"

text \<open>
  A request for \<open>t1\<close> with one entry that has the key of the stored message and one
  that has not.
\<close>

definition post4 :: EmailThreadRequest where
  "post4 = \<lparr>thread_id = ''t1'', parties = [''b@x.com'', ''c@x.com''],
            dialogs = [\<lparr>originator_index = 1, body_snippet = ''hi'', last_modified = new_year\<rparr>,
                       \<lparr>originator_index = 2, body_snippet = ''hello'',
                        last_modified = new_year\<rparr>]\<rparr>"

text \<open>
  The document of \<open>t1\<close> with a second message, added by a merge, and a table holding
  it.
\<close>

definition dialog3 :: "dialog_dict list" where
  "dialog3 = dialog1 @
     [\<lparr>d_type = ''text'', d_start = Some ''2024-01-01T00:00:00+00:00'',
       d_parties = [0, 1, 2], d_originator = 2, d_mimetype = ''text/plain'',
       d_body = Some ''hello'', d_metadata = Some [], d_meta = Some []\<rparr>]"

definition stored3 :: vcon_dict where
  "stored3 = \<lparr>v_thread_id = Some ''t1'', v_parties = Some parties2, v_dialog = Some dialog3\<rparr>"

definition db3 :: db where
  "db3 = [row1 stored3 1 3]"

text \<open>
  A timestamp with the offset \<open>+05:00\<close>, the same instant written in UTC, and a request
  that carries the former.
\<close>

definition noon_plus5 :: datetime where
  "noon_plus5 = \<lparr>year = 2024, month = 1, day = 1, hour = 12, minute = 0, second = 0,
                 microsecond = 0, tzinfo = Some 18000\<rparr>"

definition seven_utc :: datetime where
  "seven_utc = \<lparr>year = 2024, month = 1, day = 1, hour = 7, minute = 0, second = 0,
                 microsecond = 0, tzinfo = Some 0\<rparr>"

definition post_offset :: EmailThreadRequest where
  "post_offset = \<lparr>thread_id = ''t2'', parties = [''a@x.com''],
                  dialogs = [\<lparr>originator_index = 0, body_snippet = ''hi'',
                              last_modified = noon_plus5\<rparr>]\<rparr>"

section \<open>Properties\<close>

subsection \<open>The builder\<close>

lemma add_parties_Some:
  "v_parties (self_vcon_dict v) = Some ps \<Longrightarrow>
   add_parties es v =
     Inr (v\<lparr>self_vcon_dict := (self_vcon_dict v)\<lparr>v_parties := Some (ps @ map Party es)\<rparr>\<rparr>)"
  by (induction es arbitrary: v ps) (simp_all add: add_party_def)

lemma add_dialogs_Some:
  "v_dialog (self_vcon_dict v) = Some ds \<Longrightarrow>
   add_dialogs idxs dlgs v =
     Inr (v\<lparr>self_vcon_dict := (self_vcon_dict v)
            \<lparr>v_dialog := Some (ds @ map (\<lambda>dlg. Dialog ''text'' (start_of dlg) idxs
                  (originator_index dlg) ''text/plain'' (body_snippet dlg)) dlgs)\<rparr>\<rparr>)"
  by (induction dlgs arbitrary: v ds) (simp_all add: add_dialog_def)

lemma create_email_thread_vcon_eq:
  "create_email_thread_vcon req =
     Inr \<lparr>self_vcon_dict =
            \<lparr>v_thread_id = None,
             v_parties = Some (map Party (parties req)),
             v_dialog = Some (map (\<lambda>dlg. Dialog ''text'' (start_of dlg)
                                      [0 ..< length (parties req)]
                                      (originator_index dlg) ''text/plain'' (body_snippet dlg))
                                (dialogs req))\<rparr>,
          self_thread_id = Some (thread_id req)\<rparr>"
  by (simp add: create_email_thread_vcon_def build_new_def Vcon_build_new_def
      add_parties_Some add_dialogs_Some)

subsection \<open>The lookup dictionary\<close>

lemma existing_bodies_of_Nil: "existing_bodies_of [] = []"
  by (simp add: existing_bodies_of_def)

lemma existing_bodies_of_snoc:
  "map_of (existing_bodies_of (ds @ [d])) =
     (map_of (existing_bodies_of ds))(dialog_key d \<mapsto> length ds)"
  by (simp add: existing_bodies_of_def enumerate_append_eq update_conv' dialog_key_def)

lemma existing_bodies_of_Some:
  "map_of (existing_bodies_of ds) k = Some i \<Longrightarrow> i < length ds \<and> dialog_key (ds ! i) = k"
proof (induction ds arbitrary: i rule: rev_induct)
  case Nil
  then show ?case by (simp add: existing_bodies_of_Nil)
next
  case (snoc d ds)
  show ?case
  proof (cases "dialog_key d = k")
    case True
    with snoc.prems have "i = length ds" by (simp add: existing_bodies_of_snoc)
    with True show ?thesis by simp
  next
    case False
    with snoc.prems have "map_of (existing_bodies_of ds) k = Some i"
      by (simp add: existing_bodies_of_snoc)
    then have "i < length ds \<and> dialog_key (ds ! i) = k" by (rule snoc.IH)
    then show ?thesis by (simp add: nth_append)
  qed
qed

lemma existing_bodies_of_None:
  "map_of (existing_bodies_of ds) k = None \<longleftrightarrow> k \<notin> dialog_key ` set ds"
  by (induction ds rule: rev_induct) (auto simp: existing_bodies_of_Nil existing_bodies_of_snoc)

subsection \<open>The loop over the incoming entries\<close>

lemma overwrite_same:
  "d_body d = Some b \<Longrightarrow> d_start d = Some s \<Longrightarrow> d\<lparr>d_body := Some b, d_start := Some s\<rparr> = d"
  by (cases d) simp

lemma merge_dialogs_eq:
  assumes "v_parties v = Some ps" and "v_dialog v = Some (ds @ extra)"
  shows "merge_dialogs (existing_bodies_of ds) dlgs v =
           Inr (v\<lparr>v_dialog := Some (ds @ extra @ map (new_dialog (length ps))
                                                    (filter (unmatched ds) dlgs))\<rparr>)"
  using assms
proof (induction dlgs arbitrary: v extra)
  case Nil
  then show ?case by simp
next
  case (Cons dlg rest)
  let ?k = "(Some (body_snippet dlg), Some (start_of dlg))"
  show ?case
  proof (cases "map_of (existing_bodies_of ds) ?k")
    case None
    then have um: "unmatched ds dlg"
      by (simp add: existing_bodies_of_None unmatched_def incoming_key_def)
    let ?v' = "v\<lparr>v_dialog := Some (ds @ (extra @ [new_dialog (length ps) dlg]))\<rparr>"
    have "merge_dialogs (existing_bodies_of ds) rest ?v' =
            Inr (?v'\<lparr>v_dialog := Some (ds @ (extra @ [new_dialog (length ps) dlg])
                   @ map (new_dialog (length ps)) (filter (unmatched ds) rest))\<rparr>)"
      by (rule Cons.IH) (simp_all add: Cons.prems)
    with None um Cons.prems show ?thesis by simp
  next
    case (Some idx)
    then have idx: "idx < length ds" and key: "dialog_key (ds ! idx) = ?k"
      using existing_bodies_of_Some by blast+
    from idx have "ds ! idx \<in> set ds" by simp
    then have "dialog_key (ds ! idx) \<in> dialog_key ` set ds" by (rule imageI)
    with key have nm: "\<not> unmatched ds dlg" by (simp add: unmatched_def incoming_key_def)
    from key have "(ds ! idx)\<lparr>d_body := Some (body_snippet dlg), d_start := Some (start_of dlg)\<rparr>
                     = ds ! idx"
      by (simp add: overwrite_same dialog_key_def)
    with idx have same: "(ds @ extra)[idx := ((ds @ extra) ! idx)
             \<lparr>d_body := Some (body_snippet dlg), d_start := Some (start_of dlg)\<rparr>] = ds @ extra"
      by (simp add: nth_append list_update_append1 list_update_id)
    let ?v' = "v\<lparr>v_dialog := Some (ds @ extra)\<rparr>"
    have "merge_dialogs (existing_bodies_of ds) rest ?v' =
            Inr (?v'\<lparr>v_dialog := Some (ds @ extra @ map (new_dialog (length ps))
                                                      (filter (unmatched ds) rest))\<rparr>)"
      by (rule Cons.IH) (simp_all add: Cons.prems)
    with Some idx same nm Cons.prems show ?thesis by simp
  qed
qed

text \<open>The frame of the loop, for any lookup dictionary.\<close>

lemma merge_dialogs_frame:
  assumes "merge_dialogs eb dlgs v = Inr v'" and "v_dialog v = Some ds"
  shows "\<exists>ds'. v_dialog v' = Some ds' \<and> length ds \<le> length ds' \<and>
           (\<forall>j < length ds. other_fields (ds' ! j) = other_fields (ds ! j))"
  using assms
proof (induction dlgs arbitrary: v ds)
  case Nil
  then show ?case by simp
next
  case (Cons dlg rest)
  show ?case
  proof (cases "map_of eb (Some (body_snippet dlg), Some (start_of dlg))")
    case None
    with Cons.prems obtain ps where ps: "v_parties v = Some ps"
      by (cases "v_parties v") simp_all
    let ?ds1 = "ds @ [new_dialog (length ps) dlg]"
    from None ps Cons.prems
    have "merge_dialogs eb rest (v\<lparr>v_dialog := Some ?ds1\<rparr>) = Inr v'" by simp
    from Cons.IH[OF this, of ?ds1] obtain ds' where
      ds': "v_dialog v' = Some ds'" "length ?ds1 \<le> length ds'"
      "\<forall>j < length ?ds1. other_fields (ds' ! j) = other_fields (?ds1 ! j)"
      by auto
    have "\<forall>j < length ds. other_fields (ds' ! j) = other_fields (ds ! j)"
    proof (intro allI impI)
      fix j assume "j < length ds"
      then have "j < length ?ds1" "?ds1 ! j = ds ! j" by (simp_all add: nth_append)
      with ds'(3) show "other_fields (ds' ! j) = other_fields (ds ! j)" by metis
    qed
    with ds'(1,2) show ?thesis by simp
  next
    case (Some idx)
    let ?ds1 = "ds[idx := (ds ! idx)\<lparr>d_body := Some (body_snippet dlg),
                                      d_start := Some (start_of dlg)\<rparr>]"
    from Some Cons.prems have idx: "idx < length ds"
      by (cases "idx < length ds") simp_all
    with Some Cons.prems
    have "merge_dialogs eb rest (v\<lparr>v_dialog := Some ?ds1\<rparr>) = Inr v'" by simp
    from Cons.IH[OF this, of ?ds1] obtain ds' where
      ds': "v_dialog v' = Some ds'" "length ?ds1 \<le> length ds'"
      "\<forall>j < length ?ds1. other_fields (ds' ! j) = other_fields (?ds1 ! j)"
      by auto
    have "\<forall>j < length ds. other_fields (ds' ! j) = other_fields (ds ! j)"
    proof (intro allI impI)
      fix j assume j: "j < length ds"
      then have "other_fields (?ds1 ! j) = other_fields (ds ! j)"
        by (cases "j = idx") (simp_all add: other_fields_def)
      with j ds'(3) show "other_fields (ds' ! j) = other_fields (ds ! j)" by simp
    qed
    with ds'(1,2) show ?thesis by simp
  qed
qed

subsection \<open>The merge of a request\<close>

lemma merge_request_eq:
  assumes "v_parties v = Some ps" and "v_dialog v = Some ds"
  shows "merge_request v request =
           Inr (v\<lparr>v_parties := Some (ps @ new_parties_of ps (parties request)),
                  v_dialog := Some (ds @ map (new_dialog (length (ps @ new_parties_of ps (parties request))))
                                          (filter (unmatched ds) (dialogs request)))\<rparr>)"
proof -
  let ?v1 = "v\<lparr>v_parties := Some (ps @ new_parties_of ps (parties request))\<rparr>"
  have "merge_dialogs (existing_bodies_of ds) (dialogs request) ?v1 =
          Inr (?v1\<lparr>v_dialog := Some (ds @ [] @ map (new_dialog (length (ps @ new_parties_of ps (parties request))))
                                          (filter (unmatched ds) (dialogs request)))\<rparr>)"
    by (rule merge_dialogs_eq) (simp_all add: assms)
  then show ?thesis by (simp add: merge_request_def assms Let_def)
qed

lemma merge_request_no_parties:
  "v_parties v = None \<Longrightarrow> merge_request v request = Inl (KeyError ''parties'')"
  by (simp add: merge_request_def)

subsection \<open>The table\<close>

lemma first_row_None: "first_row t db = None \<longleftrightarrow> t \<notin> threadId ` set db"
  by (induction db) auto

lemma first_row_Some: "first_row t db = Some i \<Longrightarrow> i < length db \<and> threadId (db ! i) = t"
  by (induction db arbitrary: i) (auto split: if_splits)

lemma first_row_update:
  "threadId c = threadId (db ! i) \<Longrightarrow> i < length db \<Longrightarrow> first_row t (db[i := c]) = first_row t db"
proof (induction db arbitrary: i)
  case Nil
  then show ?case by simp
next
  case (Cons a db)
  then show ?case by (cases i) auto
qed

lemma first_row_append:
  "first_row t (db @ [c]) =
     (case first_row t db of Some i \<Rightarrow> Some i
      | None \<Rightarrow> if threadId c = t then Some (length db) else None)"
  by (induction db) (auto split: option.splits)

subsection \<open>The upsert handler\<close>

lemma generate_email_vcon_new:
  assumes "first_row (thread_id request) db = None"
  shows "generate_email_vcon now request db =
           (Inr \<lparr>v_thread_id = Some (thread_id request),
                 v_parties = Some (map Party (parties request)),
                 v_dialog = Some (map (\<lambda>dlg. Dialog ''text'' (start_of dlg)
                                 [0 ..< length (parties request)] (originator_index dlg)
                                 ''text/plain'' (body_snippet dlg)) (dialogs request))\<rparr>,
            db @ [\<lparr>vcon = \<lparr>v_thread_id = Some (thread_id request),
                 v_parties = Some (map Party (parties request)),
                 v_dialog = Some (map (\<lambda>dlg. Dialog ''text'' (start_of dlg)
                                 [0 ..< length (parties request)] (originator_index dlg)
                                 ''text/plain'' (body_snippet dlg)) (dialogs request))\<rparr>,
                   threadId = thread_id request, createdAt = now, updatedAt = now\<rparr>])"
  by (simp add: generate_email_vcon_def create_email_thread_vcon_eq to_dict_def assms Let_def)

lemma generate_email_vcon_merge:
  assumes "first_row (thread_id request) db = Some i"
    and "v_parties (vcon (db ! i)) = Some ps" and "v_dialog (vcon (db ! i)) = Some ds"
  shows "generate_email_vcon now request db =
           (Inr ((vcon (db ! i))\<lparr>v_parties := Some (ps @ new_parties_of ps (parties request)),
                  v_dialog := Some (ds @ map (new_dialog (length (ps @ new_parties_of ps (parties request))))
                                          (filter (unmatched ds) (dialogs request)))\<rparr>),
            db[i := (db ! i)\<lparr>vcon := (vcon (db ! i))\<lparr>v_parties := Some (ps @ new_parties_of ps (parties request)),
                  v_dialog := Some (ds @ map (new_dialog (length (ps @ new_parties_of ps (parties request))))
                                          (filter (unmatched ds) (dialogs request)))\<rparr>,
                            updatedAt := now\<rparr>])"
  by (simp add: generate_email_vcon_def create_email_thread_vcon_eq assms
      merge_request_eq[OF assms(2,3)] Let_def)

subsection \<open>The party list\<close>

lemma emails_new_parties_of:
  "map p_email (new_parties_of ps es) = map Some (filter (\<lambda>e. Some e \<notin> set (map p_email ps)) es)"
  by (simp add: new_parties_of_def comp_def)

lemma distinct_merged_emails:
  assumes "distinct (map p_email ps)" and "distinct es"
  shows "distinct (map p_email (ps @ new_parties_of ps es))"
proof -
  have "distinct (map Some (filter (\<lambda>e. Some e \<notin> set (map p_email ps)) es))"
    using assms(2) by (simp add: distinct_map)
  moreover have "set (map p_email ps) \<inter> set (map Some (filter (\<lambda>e. Some e \<notin> set (map p_email ps)) es)) = {}"
    by (auto simp: image_iff)
  ultimately show ?thesis using assms(1) by (simp add: emails_new_parties_of)
qed

lemma merge_dialogs_parties:
  "merge_dialogs eb dlgs v = Inr v' \<Longrightarrow> v_parties v' = v_parties v"
proof (induction dlgs arbitrary: v)
  case Nil
  then show ?case by simp
next
  case (Cons dlg rest)
  from Cons.prems show ?case
    by (auto simp: Let_def split: option.splits if_splits dest!: Cons.IH)
qed

lemma merge_request_parties:
  assumes "merge_request v request = Inr v'"
  shows "\<exists>ps. v_parties v = Some ps \<and> v_parties v' = Some (ps @ new_parties_of ps (parties request))"
proof (cases "v_parties v")
  case None
  with assms show ?thesis by (simp add: merge_request_def)
next
  case (Some ps)
  with assms have "v_parties v' = v_parties (v\<lparr>v_parties := Some (ps @ new_parties_of ps (parties request))\<rparr>)"
    by (simp add: merge_request_def Let_def merge_dialogs_parties)
  with Some show ?thesis by simp
qed

lemma emails_of_built: "emails_of \<lparr>v_thread_id = t, v_parties = Some (map Party es), v_dialog = d\<rparr> = map Some es"
  by (simp add: emails_of_def Party_def comp_def)

lemma generate_email_vcon_result:
  assumes "fst (generate_email_vcon now request db) = Inr v"
  shows "(first_row (thread_id request) db = None \<and> emails_of v = map Some (parties request))
         \<or> (\<exists>i ps. first_row (thread_id request) db = Some i
                \<and> v_parties (vcon (db ! i)) = Some ps
                \<and> v_parties v = Some (ps @ new_parties_of ps (parties request))
                \<and> snd (generate_email_vcon now request db)
                    = db[i := (db ! i)\<lparr>vcon := v, updatedAt := now\<rparr>])"
proof (cases "first_row (thread_id request) db")
  case None
  with assms show ?thesis
    by (auto simp: generate_email_vcon_new[OF None] emails_of_built)
next
  case (Some i)
  with assms have m: "merge_request (vcon (db ! i)) request = Inr v"
    by (simp add: generate_email_vcon_def create_email_thread_vcon_eq Let_def split: sum.splits)
  then obtain ps where "v_parties (vcon (db ! i)) = Some ps"
      "v_parties v = Some (ps @ new_parties_of ps (parties request))"
    using merge_request_parties by blast
  moreover have "snd (generate_email_vcon now request db)
                   = db[i := (db ! i)\<lparr>vcon := v, updatedAt := now\<rparr>]"
    using Some m by (simp add: generate_email_vcon_def create_email_thread_vcon_eq Let_def)
  ultimately show ?thesis using Some by simp
qed

lemma generate_email_vcon_failed:
  assumes "fst (generate_email_vcon now request db) = Inl e"
  shows "snd (generate_email_vcon now request db) = db"
  using assms
  by (simp add: generate_email_vcon_def create_email_thread_vcon_eq Let_def
      split: option.splits sum.splits)

lemma generate_email_vcon_answer_unique:
  assumes "unique_emails_db db" and "distinct (parties request)"
    and "fst (generate_email_vcon now request db) = Inr v"
  shows "unique_emails v"
  using generate_email_vcon_result[OF assms(3)]
proof (elim disjE exE conjE)
  assume "emails_of v = map Some (parties request)"
  with assms(2) show ?thesis by (simp add: unique_emails_def distinct_map)
next
  fix i ps
  assume i: "first_row (thread_id request) db = Some i"
    and ps: "v_parties (vcon (db ! i)) = Some ps"
    and v: "v_parties v = Some (ps @ new_parties_of ps (parties request))"
  from i have "i < length db" by (simp add: first_row_Some)
  with assms(1) have "unique_emails (vcon (db ! i))"
    by (simp add: unique_emails_db_def list_all_length)
  with ps have "distinct (map p_email ps)" by (simp add: unique_emails_def emails_of_def)
  then show ?thesis
    using v assms(2) distinct_merged_emails by (simp add: unique_emails_def emails_of_def)
qed

lemma generate_email_vcon_answer_contains:
  assumes "fst (generate_email_vcon now request db) = Inr v" and "e \<in> set (parties request)"
  shows "Some e \<in> set (emails_of v)"
  using generate_email_vcon_result[OF assms(1)]
proof (elim disjE exE conjE)
  assume "emails_of v = map Some (parties request)"
  with assms(2) show ?thesis by simp
next
  fix i ps
  assume v: "v_parties v = Some (ps @ new_parties_of ps (parties request))"
  have "set (map p_email (new_parties_of ps (parties request)))
          = Some ` {x \<in> set (parties request). Some x \<notin> set (map p_email ps)}"
    by (simp add: emails_new_parties_of)
  with v assms(2) show ?thesis by (auto simp: emails_of_def)
qed

lemma generate_email_vcon_unique:
  assumes "unique_emails_db db" and "distinct (parties request)"
  shows "unique_emails_db (snd (generate_email_vcon now request db))"
proof (cases "fst (generate_email_vcon now request db)")
  case (Inl e)
  with assms(1) show ?thesis by (simp add: generate_email_vcon_failed)
next
  case (Inr v)
  then have u: "unique_emails v" using assms by (simp add: generate_email_vcon_answer_unique)
  from generate_email_vcon_result[OF Inr] show ?thesis
  proof (elim disjE exE conjE)
    assume "first_row (thread_id request) db = None"
    then have "snd (generate_email_vcon now request db)
                 = db @ [\<lparr>vcon = v, threadId = thread_id request, createdAt = now, updatedAt = now\<rparr>]"
      using Inr by (simp add: generate_email_vcon_new)
    with u assms(1) show ?thesis by (simp add: unique_emails_db_def)
  next
    fix i ps
    assume "snd (generate_email_vcon now request db) = db[i := (db ! i)\<lparr>vcon := v, updatedAt := now\<rparr>]"
    with u assms(1) show ?thesis
      by (auto simp: unique_emails_db_def list_all_iff dest!: subsetD[OF set_update_subset_insert])
  qed
qed

lemma run_requests_unique:
  assumes "\<forall>r \<in> set rs. distinct (parties (snd r))" and "unique_emails_db db"
  shows "unique_emails_db (run_requests rs db)"
  using assms
proof (induction rs arbitrary: db)
  case Nil
  then show ?case by simp
next
  case (Cons r rs)
  obtain now request where r: "r = (now, request)" by (cases r)
  with Cons.prems have "unique_emails_db (snd (generate_email_vcon now request db))"
    by (simp add: generate_email_vcon_unique)
  with Cons.IH Cons.prems r show ?case by simp
qed

lemma count_list_distinct: "distinct xs \<Longrightarrow> x \<in> set xs \<Longrightarrow> count_list xs x = 1"
  by (induction xs) (auto simp: count_list_0_iff)

lemma fold_see_distinct:
  "distinct ys \<Longrightarrow> fold see ys acc = acc @ filter (\<lambda>y. y \<notin> set acc) ys"
proof (induction ys arbitrary: acc)
  case Nil
  then show ?case by simp
next
  case (Cons y ys)
  show ?case
  proof (cases "y \<in> set acc")
    case True
    with Cons show ?thesis by (simp add: see_def)
  next
    case False
    from Cons.prems have "filter (\<lambda>z. z \<notin> set (acc @ [y])) ys = filter (\<lambda>z. z \<notin> set acc) ys"
      by (intro filter_cong) auto
    with False Cons show ?thesis by (simp add: see_def)
  qed
qed

lemma generate_email_vcon_same_thread:
  assumes "first_row t db = Some i" and "v_parties (vcon (db ! i)) = Some ps"
    and "v_dialog (vcon (db ! i)) = Some ds" and "thread_id request = t"
  shows "\<exists>ds'. first_row t (snd (generate_email_vcon now request db)) = Some i
           \<and> v_parties (vcon (snd (generate_email_vcon now request db) ! i))
               = Some (ps @ new_parties_of ps (parties request))
           \<and> v_dialog (vcon (snd (generate_email_vcon now request db) ! i)) = Some ds'"
proof -
  from assms(1) have i: "i < length db" by (simp add: first_row_Some)
  from assms(1,4) have r: "first_row (thread_id request) db = Some i" by simp
  have "first_row t (db[i := (db ! i)\<lparr>vcon := x, updatedAt := now\<rparr>]) = Some i" for x
    using i assms(1) by (simp add: first_row_update)
  with i show ?thesis
    by (simp add: generate_email_vcon_merge[OF r assms(2,3)])
qed

lemma run_requests_same_thread:
  assumes "first_row t db = Some i" and "v_parties (vcon (db ! i)) = Some ps"
    and "v_dialog (vcon (db ! i)) = Some ds" and "map p_email ps = map Some acc"
    and "\<forall>r \<in> set rs. thread_id (snd r) = t \<and> distinct (parties (snd r))"
  shows "stored_emails t (run_requests rs db)
           = map Some (fold see (concat (map (\<lambda>r. parties (snd r)) rs)) acc)"
  using assms
proof (induction rs arbitrary: db ps ds acc)
  case Nil
  then show ?case by (simp add: stored_emails_def emails_of_def)
next
  case (Cons r rs)
  obtain now request where r: "r = (now, request)" by (cases r)
  with Cons.prems(5) have t: "thread_id request = t" and d: "distinct (parties request)"
    by simp_all
  let ?db' = "snd (generate_email_vcon now request db)"
  let ?ps' = "ps @ new_parties_of ps (parties request)"
  from generate_email_vcon_same_thread[OF Cons.prems(1,2,3) t, of now]
  obtain ds' where step: "first_row t ?db' = Some i" "v_parties (vcon (?db' ! i)) = Some ?ps'"
    "v_dialog (vcon (?db' ! i)) = Some ds'"
    by blast
  have "(\<lambda>e. Some e \<notin> Some ` set acc) = (\<lambda>e. e \<notin> set acc)" by auto
  then have "map p_email ?ps' = map Some (acc @ filter (\<lambda>e. e \<notin> set acc) (parties request))"
    using Cons.prems(4) by (simp add: emails_new_parties_of)
  then have acc': "map p_email ?ps' = map Some (fold see (parties request) acc)"
    using d by (simp add: fold_see_distinct)
  from Cons.prems(5) have rest: "\<forall>r \<in> set rs. thread_id (snd r) = t \<and> distinct (parties (snd r))"
    by simp
  from Cons.IH[OF step acc' rest] r show ?case by simp
qed

subsection \<open>The row of a thread across a request\<close>

lemma merge_request_row:
  assumes "merge_request v request = Inr v'"
  shows "take (length (parties_of v)) (parties_of v') = parties_of v
         \<and> take (length (dialog_of v)) (dialog_of v') = dialog_of v"
proof -
  from merge_request_parties[OF assms] obtain ps where
    ps: "v_parties v = Some ps" "v_parties v' = Some (ps @ new_parties_of ps (parties request))"
    by blast
  then have p: "take (length (parties_of v)) (parties_of v') = parties_of v"
    by (simp add: parties_of_def)
  show ?thesis
  proof (cases "v_dialog v")
    case None
    then show ?thesis using p by (simp add: dialog_of_def)
  next
    case (Some ds)
    from assms have "v_dialog v' = Some (ds @ map (new_dialog (length (ps @ new_parties_of ps (parties request))))
                                          (filter (unmatched ds) (dialogs request)))"
      by (auto simp: merge_request_eq[OF ps(1) Some])
    with Some p show ?thesis by (simp add: dialog_of_def)
  qed
qed

lemma generate_email_vcon_row:
  assumes "first_row (thread_id request) db = Some i"
  shows "first_row (thread_id request) (snd (generate_email_vcon now request db)) = Some i
         \<and> take (length (parties_of (vcon (db ! i))))
                (parties_of (vcon (snd (generate_email_vcon now request db) ! i)))
             = parties_of (vcon (db ! i))
         \<and> take (length (dialog_of (vcon (db ! i))))
                (dialog_of (vcon (snd (generate_email_vcon now request db) ! i)))
             = dialog_of (vcon (db ! i))"
proof (cases "merge_request (vcon (db ! i)) request")
  case (Inl e)
  then have "snd (generate_email_vcon now request db) = db"
    using assms by (simp add: generate_email_vcon_def create_email_thread_vcon_eq Let_def)
  with assms show ?thesis by simp
next
  case (Inr v')
  from assms have i: "i < length db" by (simp add: first_row_Some)
  have "snd (generate_email_vcon now request db) = db[i := (db ! i)\<lparr>vcon := v', updatedAt := now\<rparr>]"
    using assms Inr by (simp add: generate_email_vcon_def create_email_thread_vcon_eq Let_def)
  with i assms merge_request_row[OF Inr] show ?thesis
    by (simp add: first_row_update)
qed

lemma take_nth: "take (length ys) xs = ys \<Longrightarrow> j < length ys \<Longrightarrow> xs ! j = ys ! j"
  by (metis nth_take)

lemma take_length_le: "take (length ys) xs = ys \<Longrightarrow> length ys \<le> length xs"
  by (metis length_take min.cobounded1)

subsection \<open>Timestamps\<close>

text \<open>Replacing the offset of an aware timestamp by UTC moves its instant by the offset.\<close>

lemma utc_instant_replace:
  "tzinfo dt = Some off \<Longrightarrow>
   utc_instant (replace_tzinfo dt utc) = map_option (\<lambda>x. x + off * 1000000) (utc_instant dt)"
  by (simp add: utc_instant_def replace_tzinfo_def utc_def algebra_simps)

subsection \<open>The scenario, step by step\<close>

text \<open>The scenario's timestamp, stamped and serialised.\<close>

lemma start_new_year: "start_of \<lparr>originator_index = i, body_snippet = b, last_modified = new_year\<rparr> = ''2024-01-01T00:00:00+00:00''"
  by (simp add: start_of_def new_year_def isoformat_def replace_tzinfo_def utc_def format_offset_def zpad.simps digit_def)

lemma post1_creates:
  "generate_email_vcon now post1 [] = (Inr stored1, [row1 stored1 now now])"
  by (simp add: generate_email_vcon_new post1_def stored1_def parties1_def dialog1_def row1_def
      start_new_year Party_def Dialog_def upt_rec)

lemma post2_merges:
  "generate_email_vcon now post2 [row1 stored1 c u] = (Inr stored2, [row1 stored2 c now])"
proof -
  have r: "first_row (thread_id post2) [row1 stored1 c u] = Some 0"
    by (simp add: post2_def row1_def)
  have p: "v_parties (vcon ([row1 stored1 c u] ! 0)) = Some parties1"
    and d: "v_dialog (vcon ([row1 stored1 c u] ! 0)) = Some dialog1"
    by (simp_all add: row1_def stored1_def)
  have n: "new_parties_of parties1 (parties post2) = [\<lparr>p_email = Some ''c@x.com''\<rparr>]"
    by (simp add: new_parties_of_def parties1_def post2_def)
  have m: "filter (unmatched dialog1) (dialogs post2) = []"
    by (simp add: unmatched_def dialog1_def post2_def dialog_key_def incoming_key_def
        start_new_year)
  show ?thesis
    by (simp add: generate_email_vcon_merge[OF r p d] n m)
      (simp add: row1_def stored1_def stored2_def parties1_def parties2_def)
qed


lemma db1_row: "first_row ''t1'' db1 = Some 0"
  by (simp add: db1_def row1_def)

lemma db1_parties: "v_parties (vcon (db1 ! 0)) = Some parties1"
  by (simp add: db1_def row1_def stored1_def)

lemma db1_dialog: "v_dialog (vcon (db1 ! 0)) = Some dialog1"
  by (simp add: db1_def row1_def stored1_def)

lemma post4_thread: "thread_id post4 = ''t1''"
  by (simp add: post4_def)

lemma post2_thread: "thread_id post2 = ''t1''"
  by (simp add: post2_def)

lemma db3_row: "first_row ''t1'' db3 = Some 0"
  by (simp add: db3_def row1_def)

lemma db3_dialog: "dialog_of (vcon (db3 ! 0)) = dialog3"
  by (simp add: db3_def row1_def stored3_def dialog_of_def)

section \<open>The claims\<close>





text \<open>
  C3, as stated, fails: a request that names an email twice for a new thread stores two
  descriptors with that email (the builder adds a party for every element of the list,
  and the merge tests an incoming email against the stored parties only).
\<close>

theorem C3_counterexample:
  "\<not> unique_emails_db (run_requests
        [(1, \<lparr>thread_id = ''t1'', parties = [''a@x.com'', ''a@x.com''], dialogs = []\<rparr>)] [])"
  by (simp add: generate_email_vcon_new unique_emails_db_def unique_emails_def emails_of_def
      Party_def)

text \<open>
  C3, amended. In every table reached from the empty one by upsert requests none of
  whose parties lists names an email twice, no document has two party descriptors with
  the same email; and an upsert of such a request into such a table, if it names the
  email \<open>e\<close>, answers with a document that has exactly one descriptor for \<open>e\<close>, whether
  \<open>e\<close> was stored before or not.
\<close>

theorem C3_no_duplicate_emails:
  assumes "\<forall>r \<in> set rs. distinct (parties (snd r))"
  shows "unique_emails_db (run_requests rs [])
         \<and> (\<forall>now request e v.
               distinct (parties request) \<and> e \<in> set (parties request)
               \<and> fst (generate_email_vcon now request (run_requests rs [])) = Inr v
               \<longrightarrow> count_list (emails_of v) (Some e) = 1)"
proof -
  have "unique_emails_db []" by (simp add: unique_emails_db_def)
  with assms have u: "unique_emails_db (run_requests rs [])" by (rule run_requests_unique)
  have "count_list (emails_of v) (Some e) = 1"
    if "distinct (parties request)" "e \<in> set (parties request)"
      "fst (generate_email_vcon now request (run_requests rs [])) = Inr v"
    for now request e v
  proof -
    from u that(1,3) have "distinct (emails_of v)"
      using generate_email_vcon_answer_unique by (simp add: unique_emails_def)
    moreover from that(2,3) have "Some e \<in> set (emails_of v)"
      by (simp add: generate_email_vcon_answer_contains)
    ultimately show ?thesis by (rule count_list_distinct)
  qed
  with u show ?thesis by blast
qed

theorem C3_no_duplicate_emails_witness:
  "distinct (parties post1)
   \<and> unique_emails_db (run_requests [(1, post1)] [])
   \<and> distinct (parties post2) \<and> ''b@x.com'' \<in> set (parties post2)
   \<and> fst (generate_email_vcon 2 post2 (run_requests [(1, post1)] [])) = Inr stored2
   \<and> count_list (emails_of stored2) (Some ''b@x.com'') = 1"
proof -
  have h: "\<forall>r \<in> set [(1::nat, post1)]. distinct (parties (snd r))"
    by (simp add: post1_def)
  have d1: "distinct (parties post1)" by (simp add: post1_def)
  have d2: "distinct (parties post2)" and e: "''b@x.com'' \<in> set (parties post2)"
    by (simp_all add: post2_def)
  have g: "fst (generate_email_vcon 2 post2 (run_requests [(1, post1)] [])) = Inr stored2"
    by (simp add: post1_creates post2_merges)
  from C3_no_duplicate_emails [OF h] d2 e g
  have "unique_emails_db (run_requests [(1, post1)] [])"
    and "count_list (emails_of stored2) (Some ''b@x.com'') = 1"
    by blast+
  with d1 d2 e g show ?thesis by blast
qed

text \<open>
  C4. The stored start is the serialised timestamp with its offset replaced by UTC, not
  converted to UTC. For a request whose timestamp is \<open>2024-01-01T12:00:00+05:00\<close> the
  handler stores the start \<open>2024-01-01T12:00:00+00:00\<close>; the instant of the request's
  timestamp is \<open>2024-01-01T07:00:00+00:00\<close>, and the stored one is five hours later.
\<close>

theorem C4_offset_discarded:
  "fst (generate_email_vcon 1 post_offset [])
     = Inr \<lparr>v_thread_id = Some ''t2'', v_parties = Some [\<lparr>p_email = Some ''a@x.com''\<rparr>],
            v_dialog = Some [\<lparr>d_type = ''text'', d_start = Some ''2024-01-01T12:00:00+00:00'',
                              d_parties = [0], d_originator = 0, d_mimetype = ''text/plain'',
                              d_body = Some ''hi'', d_metadata = None, d_meta = None\<rparr>]\<rparr>
   \<and> isoformat noon_plus5 = ''2024-01-01T12:00:00+05:00''
   \<and> isoformat seven_utc = ''2024-01-01T07:00:00+00:00''
   \<and> utc_instant seven_utc = utc_instant noon_plus5
   \<and> utc_instant (replace_tzinfo noon_plus5 utc) \<noteq> utc_instant noon_plus5"
proof -
  have "start_of \<lparr>originator_index = 0, body_snippet = ''hi'', last_modified = noon_plus5\<rparr>
          = ''2024-01-01T12:00:00+00:00''"
    by (simp add: start_of_def noon_plus5_def isoformat_def replace_tzinfo_def utc_def
        format_offset_def zpad.simps digit_def)
  then have "fst (generate_email_vcon 1 post_offset [])
     = Inr \<lparr>v_thread_id = Some ''t2'', v_parties = Some [\<lparr>p_email = Some ''a@x.com''\<rparr>],
            v_dialog = Some [\<lparr>d_type = ''text'', d_start = Some ''2024-01-01T12:00:00+00:00'',
                              d_parties = [0], d_originator = 0, d_mimetype = ''text/plain'',
                              d_body = Some ''hi'', d_metadata = None, d_meta = None\<rparr>]\<rparr>"
    by (simp add: generate_email_vcon_new post_offset_def Dialog_def Party_def)
  moreover have "isoformat noon_plus5 = ''2024-01-01T12:00:00+05:00''"
    by (simp add: noon_plus5_def isoformat_def format_offset_def zpad.simps digit_def)
  moreover have "isoformat seven_utc = ''2024-01-01T07:00:00+00:00''"
    by (simp add: seven_utc_def isoformat_def format_offset_def zpad.simps digit_def)
  moreover have "utc_instant seven_utc = utc_instant noon_plus5"
    by (simp add: utc_instant_def seven_utc_def noon_plus5_def)
  moreover have "utc_instant (replace_tzinfo noon_plus5 utc) \<noteq> utc_instant noon_plus5"
    by (simp add: utc_instant_def replace_tzinfo_def utc_def noon_plus5_def)
  ultimately show ?thesis by blast
qed

text \<open>
  C5, as stated, fails: after the first request of the scenario, a request on the same
  thread whose parties list names the new email c twice stores c twice, so the party
  list is not the list of the distinct emails in the order of their first occurrence.
\<close>

theorem C5_counterexample:
  "stored_emails ''t1'' (run_requests
       [(1, post1),
        (2, \<lparr>thread_id = ''t1'', parties = [''c@x.com'', ''c@x.com''], dialogs = []\<rparr>)] [])
     = [Some ''a@x.com'', Some ''b@x.com'', Some ''c@x.com'', Some ''c@x.com'']
   \<and> stored_emails ''t1'' (run_requests
       [(1, post1),
        (2, \<lparr>thread_id = ''t1'', parties = [''c@x.com'', ''c@x.com''], dialogs = []\<rparr>)] [])
     \<noteq> map Some (first_seen (concat (map (\<lambda>r. parties (snd r))
       [(1::nat, post1),
        (2, \<lparr>thread_id = ''t1'', parties = [''c@x.com'', ''c@x.com''], dialogs = []\<rparr>)])))"
proof -
  let ?r = "\<lparr>thread_id = ''t1'', parties = [''c@x.com'', ''c@x.com''], dialogs = []\<rparr>"
  have r: "first_row (thread_id ?r) [row1 stored1 c u] = Some 0" for c u
    by (simp add: row1_def)
  have p: "v_parties (vcon ([row1 stored1 c u] ! 0)) = Some parties1"
    and d: "v_dialog (vcon ([row1 stored1 c u] ! 0)) = Some dialog1" for c u
    by (simp_all add: row1_def stored1_def)
  have "stored_emails ''t1'' (run_requests [(1, post1), (2, ?r)] [])
     = [Some ''a@x.com'', Some ''b@x.com'', Some ''c@x.com'', Some ''c@x.com'']"
    by (simp add: post1_creates generate_email_vcon_merge[OF r p d])
       (simp add: stored_emails_def emails_of_def row1_def parties1_def new_parties_of_def)
  moreover have "first_seen (concat (map (\<lambda>r. parties (snd r)) [(1::nat, post1), (2, ?r)]))
     = [''a@x.com'', ''b@x.com'', ''c@x.com'']"
    by (simp add: first_seen_def see_def post1_def)
  ultimately show ?thesis by simp
qed

text \<open>
  C5, amended. For every non-empty sequence of upsert requests on one thread that has
  no row at the start, none of whose parties lists names an email twice, the emails of
  the stored party list are the distinct emails of all the requests in the order of
  their first occurrence: the parties stored by the earlier requests keep their
  positions, and each request's new emails follow in the order of its list.
\<close>

theorem C5_party_order:
  assumes "t \<notin> threadId ` set db" and "rs \<noteq> []"
    and "\<forall>r \<in> set rs. thread_id (snd r) = t \<and> distinct (parties (snd r))"
  shows "stored_emails t (run_requests rs db)
           = map Some (first_seen (concat (map (\<lambda>r. parties (snd r)) rs)))"
proof -
  from assms(2) obtain r rest where rs: "rs = r # rest" by (cases rs) auto
  obtain now request where r: "r = (now, request)" by (cases r)
  from assms(3) rs r have t: "thread_id request = t" and d: "distinct (parties request)"
    and rest: "\<forall>r \<in> set rest. thread_id (snd r) = t \<and> distinct (parties (snd r))"
    by simp_all
  from assms(1) t have none: "first_row (thread_id request) db = None"
    by (simp add: first_row_None)
  let ?db' = "snd (generate_email_vcon now request db)"
  let ?i = "length db"
  from none t have row: "first_row t ?db' = Some ?i"
    by (simp add: generate_email_vcon_new first_row_append)
  have ps: "v_parties (vcon (?db' ! ?i)) = Some (map Party (parties request))"
    and ds: "v_dialog (vcon (?db' ! ?i)) = Some (map (\<lambda>dlg. Dialog ''text'' (start_of dlg)
                                 [0 ..< length (parties request)] (originator_index dlg)
                                 ''text/plain'' (body_snippet dlg)) (dialogs request))"
    by (simp_all add: generate_email_vcon_new[OF none])
  have acc: "map p_email (map Party (parties request)) = map Some (fold see (parties request) [])"
    using d by (simp add: fold_see_distinct Party_def comp_def)
  from run_requests_same_thread[OF row ps ds acc rest] rs r show ?thesis
    by (simp add: first_seen_def)
qed

theorem C5_party_order_witness:
  "''t1'' \<notin> threadId ` set ([] :: db) \<and> [(1::nat, post1), (2, post2)] \<noteq> []
   \<and> thread_id post1 = ''t1'' \<and> distinct (parties post1)
   \<and> thread_id post2 = ''t1'' \<and> distinct (parties post2)
   \<and> stored_emails ''t1'' (run_requests [(1, post1), (2, post2)] [])
       = map Some (first_seen (concat (map (\<lambda>r. parties (snd r))
           [(1::nat, post1), (2, post2)])))
   \<and> first_seen (concat (map (\<lambda>r. parties (snd r)) [(1::nat, post1), (2, post2)]))
       = [''a@x.com'', ''b@x.com'', ''c@x.com'']"
proof -
  have h1: "''t1'' \<notin> threadId ` set ([] :: db)" by simp
  have h2: "[(1::nat, post1), (2, post2)] \<noteq> []" by simp
  have p1: "thread_id post1 = ''t1''" "distinct (parties post1)" by (simp_all add: post1_def)
  have p2: "thread_id post2 = ''t1''" "distinct (parties post2)" by (simp_all add: post2_def)
  from p1 p2 have h3: "\<forall>r \<in> set [(1::nat, post1), (2, post2)].
              thread_id (snd r) = ''t1'' \<and> distinct (parties (snd r))"
    by simp
  have "first_seen (concat (map (\<lambda>r. parties (snd r)) [(1::nat, post1), (2, post2)]))
       = [''a@x.com'', ''b@x.com'', ''c@x.com'']"
    by (simp add: first_seen_def see_def post1_def post2_def)
  with h1 h2 p1 p2 C5_party_order [OF h1 h2 h3] show ?thesis by blast
qed

text \<open>
  C6. An upsert request on a thread that has a row never removes or moves anything in
  the row's document: after the request the thread has its row at the same place, every
  party descriptor stands at the index it had, and neither the party list nor the dialog
  list is shorter. This holds whether the merge succeeds or raises (then nothing is
  committed).
\<close>

theorem C6_merge_non_destructive:
  assumes "first_row (thread_id request) db = Some i"
  shows "first_row (thread_id request) (snd (generate_email_vcon now request db)) = Some i
         \<and> (\<forall>j < length (parties_of (vcon (db ! i))).
               parties_of (vcon (snd (generate_email_vcon now request db) ! i)) ! j
                 = parties_of (vcon (db ! i)) ! j)
         \<and> length (parties_of (vcon (db ! i)))
             \<le> length (parties_of (vcon (snd (generate_email_vcon now request db) ! i)))
         \<and> length (dialog_of (vcon (db ! i)))
             \<le> length (dialog_of (vcon (snd (generate_email_vcon now request db) ! i)))"
  using generate_email_vcon_row[OF assms, of now]
  by (auto intro: take_nth take_length_le)

theorem C6_merge_non_destructive_witness:
  "first_row (thread_id post4) db1 = Some 0
   \<and> length (parties_of (vcon (db1 ! 0))) = 2
   \<and> first_row (thread_id post4) (snd (generate_email_vcon 2 post4 db1)) = Some 0
   \<and> parties_of (vcon (snd (generate_email_vcon 2 post4 db1) ! 0)) ! 0
       = parties_of (vcon (db1 ! 0)) ! 0
   \<and> parties_of (vcon (snd (generate_email_vcon 2 post4 db1) ! 0)) ! 1
       = parties_of (vcon (db1 ! 0)) ! 1
   \<and> length (parties_of (vcon (db1 ! 0)))
       \<le> length (parties_of (vcon (snd (generate_email_vcon 2 post4 db1) ! 0)))
   \<and> length (dialog_of (vcon (db1 ! 0)))
       \<le> length (dialog_of (vcon (snd (generate_email_vcon 2 post4 db1) ! 0)))"
proof -
  have h: "first_row (thread_id post4) db1 = Some 0" by (simp add: post4_thread db1_row)
  have l: "length (parties_of (vcon (db1 ! 0))) = 2"
    by (simp add: parties_of_def db1_parties parties1_def)
  then have "0 < length (parties_of (vcon (db1 ! 0)))" "1 < length (parties_of (vcon (db1 ! 0)))"
    by simp_all
  with h l C6_merge_non_destructive [OF h, of 2] show ?thesis by blast
qed

text \<open>
  C7. With a row for the thread whose document holds the party list \<open>ps\<close> and the dialog
  list \<open>ds\<close>, the entries that a request appends, one for each incoming entry whose key is
  not among the existing ones, have: parties the full index range of the party list of
  the answer, that is of the list after the participant merge; originator the incoming
  originator_index; type "text"; mimetype "text/plain"; start and body from the incoming
  entry; and empty metadata and meta objects.
\<close>

theorem C7_appended_entry_fields:
  assumes "first_row (thread_id request) db = Some i"
    and "v_parties (vcon (db ! i)) = Some ps" and "v_dialog (vcon (db ! i)) = Some ds"
  shows "\<exists>merged db' ps' ds'.
           generate_email_vcon now request db = (Inr merged, db')
           \<and> v_parties merged = Some ps' \<and> v_dialog merged = Some ds'
           \<and> drop (length ds) ds'
               = map (\<lambda>dlg. \<lparr>d_type = ''text'', d_start = Some (start_of dlg),
                              d_parties = [0 ..< length ps'],
                              d_originator = originator_index dlg,
                              d_mimetype = ''text/plain'', d_body = Some (body_snippet dlg),
                              d_metadata = Some [], d_meta = Some []\<rparr>)
                   (filter (unmatched ds) (dialogs request))"
  by (simp add: generate_email_vcon_merge[OF assms] new_dialog_def)

theorem C7_appended_entry_fields_witness:
  "first_row (thread_id post4) db1 = Some 0
   \<and> v_parties (vcon (db1 ! 0)) = Some parties1 \<and> v_dialog (vcon (db1 ! 0)) = Some dialog1
   \<and> (\<exists>merged db' ps' ds'.
           generate_email_vcon 2 post4 db1 = (Inr merged, db')
           \<and> v_parties merged = Some ps' \<and> v_dialog merged = Some ds'
           \<and> drop (length dialog1) ds'
               = map (\<lambda>dlg. \<lparr>d_type = ''text'', d_start = Some (start_of dlg),
                              d_parties = [0 ..< length ps'],
                              d_originator = originator_index dlg,
                              d_mimetype = ''text/plain'', d_body = Some (body_snippet dlg),
                              d_metadata = Some [], d_meta = Some []\<rparr>)
                   (filter (unmatched dialog1) (dialogs post4)))"
proof -
  have h: "first_row (thread_id post4) db1 = Some 0" by (simp add: post4_thread db1_row)
  show ?thesis
    using h db1_parties db1_dialog C7_appended_entry_fields [OF h db1_parties db1_dialog, of 2]
    by blast
qed

text \<open>
  C8. For a thread identifier that no row carries, the fetch handler raises the
  HTTP exception 404 with detail "Conversation not found", whose response body is
  \<open>{"detail": "Conversation not found"}\<close>, and the table after the request is the
  table before it: no row is created.
\<close>

theorem C8_fetch_unknown_thread:
  assumes "t \<notin> threadId ` set db"
  shows "get_vcon_by_thread_id t db = (Inl (HTTPException 404 ''Conversation not found''), db)
         \<and> error_body (HTTPException 404 ''Conversation not found'')
             = [(''detail'', ''Conversation not found'')]"
proof -
  from assms have "first_row t db = None" by (simp add: first_row_None)
  then show ?thesis by (simp add: get_vcon_by_thread_id_def error_body_def)
qed

theorem C8_fetch_unknown_thread_witness:
  "''t2'' \<notin> threadId ` set db1
   \<and> get_vcon_by_thread_id ''t2'' db1 = (Inl (HTTPException 404 ''Conversation not found''), db1)
   \<and> error_body (HTTPException 404 ''Conversation not found'')
             = [(''detail'', ''Conversation not found'')]"
proof -
  have h: "''t2'' \<notin> threadId ` set db1" by (simp add: db1_def row1_def)
  show ?thesis using h C8_fetch_unknown_thread [OF h] by simp
qed

text \<open>
  C9. Across an upsert request on a thread that has a row, every message that was in
  the row's document keeps its type, parties, originator, mimetype, metadata and meta
  (the overwrite of a key-matched message assigns body and start only, so a participant
  who joins later never enters the parties of an earlier message), and a message whose
  key no incoming entry has is left as it was in all its fields.
\<close>

theorem C9_overwrite_frame:
  assumes "first_row (thread_id request) db = Some i"
  shows "\<forall>j < length (dialog_of (vcon (db ! i))).
           other_fields (dialog_of (vcon (snd (generate_email_vcon now request db) ! i)) ! j)
             = other_fields (dialog_of (vcon (db ! i)) ! j)
           \<and> (dialog_key (dialog_of (vcon (db ! i)) ! j) \<notin> incoming_key ` set (dialogs request)
                \<longrightarrow> dialog_of (vcon (snd (generate_email_vcon now request db) ! i)) ! j
                      = dialog_of (vcon (db ! i)) ! j)"
  using generate_email_vcon_row[OF assms, of now]
  by (auto dest: take_nth)

theorem C9_overwrite_frame_witness:
  "first_row (thread_id post2) db3 = Some 0
   \<and> length (dialog_of (vcon (db3 ! 0))) = 2
   \<and> dialog_key (dialog_of (vcon (db3 ! 0)) ! 0) \<in> incoming_key ` set (dialogs post2)
   \<and> other_fields (dialog_of (vcon (snd (generate_email_vcon 4 post2 db3) ! 0)) ! 0)
       = other_fields (dialog_of (vcon (db3 ! 0)) ! 0)
   \<and> dialog_key (dialog_of (vcon (db3 ! 0)) ! 1) \<notin> incoming_key ` set (dialogs post2)
   \<and> dialog_of (vcon (snd (generate_email_vcon 4 post2 db3) ! 0)) ! 1
       = dialog_of (vcon (db3 ! 0)) ! 1"
proof -
  have h: "first_row (thread_id post2) db3 = Some 0" by (simp add: post2_thread db3_row)
  have l: "length (dialog_of (vcon (db3 ! 0))) = 2"
    by (simp add: db3_dialog dialog3_def dialog1_def)
  have k0: "dialog_key (dialog_of (vcon (db3 ! 0)) ! 0) \<in> incoming_key ` set (dialogs post2)"
    by (simp add: db3_dialog dialog3_def dialog1_def post2_def dialog_key_def incoming_key_def
        start_new_year)
  have k1: "dialog_key (dialog_of (vcon (db3 ! 0)) ! 1) \<notin> incoming_key ` set (dialogs post2)"
    by (simp add: db3_dialog dialog3_def dialog1_def post2_def dialog_key_def incoming_key_def)
  from l have "0 < length (dialog_of (vcon (db3 ! 0)))" "1 < length (dialog_of (vcon (db3 ! 0)))"
    by simp_all
  with h l k0 k1 C9_overwrite_frame [OF h, of 4] show ?thesis by blast
qed

text \<open>
  C10. A request with an empty \<open>parties\<close> list for a thread that has no row is
  accepted: the handler answers with a document and stores it in a new row; the party
  list of the document is empty, it has one dialog entry per incoming entry, and the
  \<open>parties\<close> index range of each is empty.
\<close>

theorem C10_empty_parties_accepted:
  assumes "thread_id request \<notin> threadId ` set db" and "parties request = []"
  shows "\<exists>v ds. generate_email_vcon now request db =
                  (Inr v, db @ [\<lparr>vcon = v, threadId = thread_id request,
                                 createdAt = now, updatedAt = now\<rparr>])
           \<and> v_parties v = Some [] \<and> v_dialog v = Some ds
           \<and> length ds = length (dialogs request) \<and> list_all (\<lambda>d. d_parties d = []) ds"
proof -
  from assms(1) have "first_row (thread_id request) db = None" by (simp add: first_row_None)
  then show ?thesis
    by (simp add: generate_email_vcon_new assms(2) list_all_iff Dialog_def)
qed

theorem C10_empty_parties_accepted_witness:
  "thread_id (post1\<lparr>parties := []\<rparr>) \<notin> threadId ` set ([] :: db)
   \<and> parties (post1\<lparr>parties := []\<rparr>) = []
   \<and> (\<exists>v ds. generate_email_vcon 7 (post1\<lparr>parties := []\<rparr>) [] =
                  (Inr v, [] @ [\<lparr>vcon = v, threadId = thread_id (post1\<lparr>parties := []\<rparr>),
                                 createdAt = 7, updatedAt = 7\<rparr>])
           \<and> v_parties v = Some [] \<and> v_dialog v = Some ds
           \<and> length ds = length (dialogs (post1\<lparr>parties := []\<rparr>))
           \<and> list_all (\<lambda>d. d_parties d = []) ds)"
proof -
  have h1: "thread_id (post1\<lparr>parties := []\<rparr>) \<notin> threadId ` set ([] :: db)" by simp
  have h2: "parties (post1\<lparr>parties := []\<rparr>) = []" by simp
  show ?thesis using h1 h2 C10_empty_parties_accepted [OF h1 h2, of 7] by blast
qed

end
